theory Spec2Isabelle
  imports Main
begin

section \<open>Values at the HTTP boundary\<close>

text \<open>
  The router of \<^verbatim>\<open>src/index.ts\<close> exchanges JSON values with its callers. A JSON value is
  a tree; numbers are kept as integers, since no function of the router computes on them.
\<close>

datatype json =
    JNull
  | JBool bool
  | JNum int
  | JStr string
  | JArr "json list"
  | JObj "(string \<times> json) list"

text \<open>
  A \<^verbatim>\<open>Response\<close> is a status and a body. \<^verbatim>\<open>Response.json(data, {status})\<close> builds one
  whose body is the JSON text of \<^verbatim>\<open>data\<close>; a middleware may build any other response
  (the README returns \<^verbatim>\<open>new Response("Unauthorized", {status: 401})\<close>). Responses are
  values here: that a \<^verbatim>\<open>Response\<close> object's body stream can be read once only is outside
  the model.
\<close>

datatype body = JsonBody json | TextBody string

record response =
  status :: nat
  body :: body

definition Response_json :: "json \<Rightarrow> nat \<Rightarrow> response" where
  "Response_json data st = \<lparr>status = st, body = JsonBody data\<rparr>"

definition emptyObject :: json where
  "emptyObject = JObj []"

definition notFoundResponse :: response where
  "notFoundResponse = Response_json (JObj [(''error'', JStr ''Not found'')]) 404"

definition errorResponse :: response where
  "errorResponse = Response_json (JObj [(''error'', JStr ''Unknown error'')]) 500"

text \<open>
  Of a \<^verbatim>\<open>Request\<close> the router reads three things: \<^verbatim>\<open>new URL(req.url).pathname\<close>,
  \<^verbatim>\<open>req.method\<close> and the outcome of \<^verbatim>\<open>await req.json()\<close>, which is \<open>None\<close> when that
  promise rejects (the body is not JSON text). URL parsing and JSON parsing belong to the
  platform; the request carries their results.
\<close>

record request =
  pathname :: string
  req_method :: string
  req_json :: "json option"

text \<open>
  What a callback can throw: a \<^verbatim>\<open>z.ZodError\<close> with its list of issues
  (\<^verbatim>\<open>error.errors\<close>, taken to be JSON values), the client's
  \<^verbatim>\<open>Error(`HTTP error! status: ${status}`)\<close>, or anything else.
\<close>

datatype exn =
    ZodError "json list"
  | HttpError nat
  | OtherError string

section \<open>Procedures, middleware and the procedure builder\<close>

text \<open>
  \<^verbatim>\<open>Context\<close> is a plain object; it is modelled by the list of its own properties, so the
  spread \<^verbatim>\<open>{...this.ctx}\<close> yields an equal value. Handlers, middleware and schemas are
  functions of their arguments, and they are taken not to mutate the objects they are
  handed (the context, the input).
\<close>

type_synonym Context = "(string \<times> json) list"

text \<open>
  A handler \<^verbatim>\<open>(input, ctx) => Promise<TOutput> | TOutput\<close> either returns a value, which is
  taken to be JSON-serializable, or throws.
\<close>

datatype handler_run = HReturns json | HThrows exn

type_synonym handler = "json \<Rightarrow> Context \<Rightarrow> handler_run"

text \<open>
  A middleware \<^verbatim>\<open>(opts: {ctx, next}) => Promise<any>\<close> is called with the current context
  and the continuation \<^verbatim>\<open>next\<close>. What the router can observe of one call is the sequence
  of contexts the middleware passed to \<^verbatim>\<open>next\<close> before its promise settled
  (\<open>next_calls\<close>, possibly empty, possibly several) and how the promise settled
  (\<open>settled\<close>): with a \<^verbatim>\<open>Response\<close>, with any other value (\<^verbatim>\<open>undefined\<close> included), or
  by throwing. Calls of \<^verbatim>\<open>next\<close> made after the promise has settled are outside the model.
\<close>

datatype mw_return = ReturnsResponse response | ReturnsOther | Throws exn

record mw_run =
  next_calls :: "Context list"
  settled :: mw_return

type_synonym middleware = "Context \<Rightarrow> mw_run"

text \<open>
  \<^verbatim>\<open>safeParse\<close> of the schema library returns \<^verbatim>\<open>{success: true, data}\<close> or
  \<^verbatim>\<open>{success: false, error}\<close>; it can also throw (a refinement or transform that throws).
\<close>

datatype safe_parse = ParseSuccess json | ParseFailure "json list" | ParseThrows exn

type_synonym schema = "json \<Rightarrow> safe_parse"

datatype proc_type = Query | Mutation

record procedure_obj =
  proc_type :: proc_type
  proc_handler :: handler
  proc_middleware :: "middleware list"
  proc_input :: "schema option"

record ProcedureBuilder =
  b_input :: "schema option"
  b_type :: proc_type
  b_middleware :: "middleware list"

definition new_ProcedureBuilder :: "proc_type \<Rightarrow> ProcedureBuilder" where
  "new_ProcedureBuilder t = \<lparr>b_input = None, b_type = t, b_middleware = []\<rparr>"

definition builder_input :: "ProcedureBuilder \<Rightarrow> schema \<Rightarrow> ProcedureBuilder" where
  "builder_input this sch =
     \<lparr>b_input = Some sch, b_type = b_type this, b_middleware = b_middleware this\<rparr>"

definition use :: "ProcedureBuilder \<Rightarrow> middleware \<Rightarrow> ProcedureBuilder" where
  "use this fn =
     \<lparr>b_input = b_input this, b_type = b_type this, b_middleware = b_middleware this @ [fn]\<rparr>"

definition query :: "ProcedureBuilder \<Rightarrow> handler \<Rightarrow> procedure_obj" where
  "query this h =
     \<lparr>proc_type = Query, proc_handler = h, proc_middleware = b_middleware this,
      proc_input = b_input this\<rparr>"

definition mutation :: "ProcedureBuilder \<Rightarrow> handler \<Rightarrow> procedure_obj" where
  "mutation this h =
     \<lparr>proc_type = Mutation, proc_handler = h, proc_middleware = b_middleware this,
      proc_input = b_input this\<rparr>"

section \<open>The router\<close>

record route =
  handler :: handler
  middleware :: "middleware list"
  input :: "schema option"

text \<open>
  \<^verbatim>\<open>routes\<close> is a plain JavaScript object created by \<^verbatim>\<open>{}\<close>: \<open>routes\<close> holds its own
  properties, and \<open>routes_proto\<close> its prototype, \<open>None\<close> standing for
  \<^verbatim>\<open>Object.prototype\<close>. The assignment \<^verbatim>\<open>this.routes[name] = {handler, middleware, input}\<close>
  creates or overwrites an own property, except for the name \<^verbatim>\<open>__proto__\<close>, where it runs
  the inherited setter and makes the new entry the prototype of \<^verbatim>\<open>routes\<close>.
\<close>

record FastRPC =
  routes :: "string \<rightharpoonup> route"
  routes_proto :: "route option"
  ctx :: Context

definition new_FastRPC :: "Context \<Rightarrow> FastRPC" where
  "new_FastRPC c = \<lparr>routes = Map.empty, routes_proto = None, ctx = c\<rparr>"

definition procedure :: "FastRPC \<Rightarrow> string \<Rightarrow> handler \<Rightarrow> middleware list \<Rightarrow> schema option \<Rightarrow> FastRPC" where
  "procedure this name h mws sch =
     (let entry = \<lparr>handler = h, middleware = mws, input = sch\<rparr>
      in if name = ''__proto__'' then this\<lparr>routes_proto := Some entry\<rparr>
         else this\<lparr>routes := (routes this)(name \<mapsto> entry)\<rparr>)"

text \<open>
  \<^verbatim>\<open>router(procedures)\<close> of \<^verbatim>\<open>FastRPCBuilder.create()\<close>: a new router on the builder's
  context, and one \<^verbatim>\<open>rpc.procedure\<close> call for each entry of \<^verbatim>\<open>Object.entries(procedures)\<close>.
\<close>

definition router :: "Context \<Rightarrow> (string \<times> procedure_obj) list \<Rightarrow> FastRPC" where
  "router self_context procedures =
     foldl (\<lambda>rpc (name, p). procedure rpc name (proc_handler p) (proc_middleware p) (proc_input p))
       (new_FastRPC self_context) procedures"

text \<open>
  The value of \<^verbatim>\<open>this.routes[name]\<close>. A property read looks at the own properties first and
  then along the prototype chain, so the read finds a registered entry, or nothing
  (\<^verbatim>\<open>undefined\<close>), or a value that no registration put there: a member of
  \<^verbatim>\<open>Object.prototype\<close> (a function, or for \<^verbatim>\<open>__proto__\<close> the prototype object), or a
  field of an entry that was installed as prototype. Such a foreign value is truthy and is
  taken to have no \<^verbatim>\<open>input\<close>, \<^verbatim>\<open>middleware\<close> or \<^verbatim>\<open>handler\<close> property of its own.
\<close>

datatype slot = Undefined | Entry route | Foreign

definition object_prototype_keys :: "string list" where
  "object_prototype_keys =
     [''constructor'', ''__defineGetter__'', ''__defineSetter__'', ''hasOwnProperty'',
      ''__lookupGetter__'', ''__lookupSetter__'', ''isPrototypeOf'', ''propertyIsEnumerable'',
      ''toString'', ''valueOf'', ''__proto__'', ''toLocaleString'']"

definition routes_get :: "FastRPC \<Rightarrow> string \<Rightarrow> slot" where
  "routes_get this name =
     (case routes this name of
        Some entry \<Rightarrow> Entry entry
      | None \<Rightarrow>
          (case routes_proto this of
             None \<Rightarrow> if name \<in> set object_prototype_keys then Foreign else Undefined
           | Some p \<Rightarrow>
               if name = ''__proto__'' then Entry p
               else if name = ''handler'' \<or> name = ''middleware'' then Foreign
               else if name = ''input'' then (case input p of None \<Rightarrow> Undefined | Some _ \<Rightarrow> Foreign)
               else if name \<in> set object_prototype_keys then Foreign
               else Undefined))"

text \<open>
  The test \<^verbatim>\<open>if (!route)\<close> and the property reads \<^verbatim>\<open>route.input\<close>,
  \<^verbatim>\<open>route.middleware\<close> and \<^verbatim>\<open>route.handler\<close>.
\<close>

fun truthy :: "slot \<Rightarrow> bool" where
  "truthy Undefined = False"
| "truthy _ = True"

fun route_input :: "slot \<Rightarrow> schema option" where
  "route_input (Entry r) = input r"
| "route_input _ = None"

fun route_middleware :: "slot \<Rightarrow> middleware list option" where
  "route_middleware (Entry r) = Some (middleware r)"
| "route_middleware _ = None"

fun route_handler :: "slot \<Rightarrow> handler option" where
  "route_handler (Entry r) = Some (handler r)"
| "route_handler _ = None"

subsection \<open>The procedure name\<close>

text \<open>\<^verbatim>\<open>s.split("/")\<close>: the pieces of \<open>s\<close> between slashes, never an empty list.\<close>

fun split_slash :: "string \<Rightarrow> string list" where
  "split_slash [] = [[]]"
| "split_slash (c # cs) =
     (if c = CHR ''/'' then [] # split_slash cs
      else (case split_slash cs of
              [] \<Rightarrow> [[c]]
            | s # ss \<Rightarrow> (c # s) # ss))"

text \<open>\<^verbatim>\<open>xs.pop()\<close>: the last element, \<^verbatim>\<open>undefined\<close> on an empty array.\<close>

definition pop :: "'a list \<Rightarrow> 'a option" where
  "pop xs = (if xs = [] then None else Some (last xs))"

text \<open>\<^verbatim>\<open>url.pathname.split("/").pop() || ""\<close>\<close>

definition procedure_name :: "string \<Rightarrow> string" where
  "procedure_name path =
     (case pop (split_slash path) of
        None \<Rightarrow> ''''
      | Some s \<Rightarrow> if s = '''' then '''' else s)"

subsection \<open>The trace of a request\<close>

text \<open>
  To speak about which callbacks run, and in which order, \<open>handle\<close> returns beside the
  response the trace of what it did with its callbacks: every call of a middleware with
  the context it was given, every call of the continuation \<^verbatim>\<open>next\<close> with the context the
  middleware passed, the settling of the awaited middleware promise, the call of the
  handler with its two arguments, the settling of its promise, and
  \<^verbatim>\<open>console.error(error)\<close>.
\<close>

datatype event =
    MwCall nat Context
  | NextCall Context
  | MwSettled nat mw_return
  | HandlerCall json Context
  | HandlerSettled handler_run
  | ConsoleError exn

text \<open>
  The three ways a stage of the try block ends: it goes on with a value, it returns a
  response from \<open>handle\<close>, or it throws into the catch clause.
\<close>

datatype 'a step = Continue 'a | Respond response | Raise exn

text \<open>
  \<^verbatim>\<open>let input = emptyObject; if (req.method === "POST") { try { input = await req.json() }
  catch { return Response.json({error: "Invalid JSON"}, {status: 400}) } }\<close>
\<close>

definition read_input :: "request \<Rightarrow> json step" where
  "read_input req =
     (if req_method req = ''POST'' then
        (case req_json req of
           Some v \<Rightarrow> Continue v
         | None \<Rightarrow> Respond (Response_json (JObj [(''error'', JStr ''Invalid JSON'')]) 400))
      else Continue emptyObject)"

text \<open>
  \<^verbatim>\<open>if (route.input) { const result = route.input.safeParse(input);
  if (!result.success) return Response.json({error: result.error.errors}, {status: 400});
  input = result.data }\<close>
\<close>

definition validate :: "schema option \<Rightarrow> json \<Rightarrow> json step" where
  "validate sch raw =
     (case sch of
        None \<Rightarrow> Continue raw
      | Some parse \<Rightarrow>
          (case parse raw of
             ParseSuccess data \<Rightarrow> Continue data
           | ParseFailure errors \<Rightarrow> Respond (Response_json (JObj [(''error'', JArr errors)]) 400)
           | ParseThrows e \<Rightarrow> Raise e))"

text \<open>
  The continuation \<^verbatim>\<open>next: async (opts) => { ctx = opts.ctx; nextCalled = true }\<close> as a
  function on the two variables it assigns.
\<close>

definition next_closure :: "Context \<times> bool \<Rightarrow> Context \<Rightarrow> Context \<times> bool" where
  "next_closure vars opts_ctx = (opts_ctx, True)"

text \<open>
  The loop \<^verbatim>\<open>for (const middleware of route.middleware)\<close>, from position \<open>i\<close> of the list
  on, with the current value \<open>c\<close> of the variable \<^verbatim>\<open>ctx\<close>. The variable \<^verbatim>\<open>nextCalled\<close> is
  \<^verbatim>\<open>false\<close> whenever an iteration starts: it is initialised so, and an iteration that
  goes on to the next one resets it. An iteration awaits the middleware, during which the
  calls of \<^verbatim>\<open>next\<close> happen; then a returned \<^verbatim>\<open>Response\<close> is returned from \<open>handle\<close>, a
  middleware that did not call \<^verbatim>\<open>next\<close> ends the loop (\<^verbatim>\<open>break\<close>), and otherwise the loop
  goes on. The result is the trace and the context the loop ends with.
\<close>

fun run_middleware :: "middleware list \<Rightarrow> nat \<Rightarrow> Context \<Rightarrow> event list \<times> Context step" where
  "run_middleware [] i c = ([], Continue c)"
| "run_middleware (m # ms) i c =
     (let run = m c;
          (c', nextCalled) = foldl next_closure (c, False) (next_calls run);
          evs = MwCall i c # map NextCall (next_calls run) @ [MwSettled i (settled run)]
      in case settled run of
           Throws e \<Rightarrow> (evs, Raise e)
         | ReturnsResponse result \<Rightarrow> (evs, Respond result)
         | ReturnsOther \<Rightarrow>
             if \<not> nextCalled then (evs, Continue c')
             else (let (evs', res) = run_middleware ms (Suc i) c' in (evs @ evs', res)))"

text \<open>
  \<^verbatim>\<open>const result = await route.handler(input, ctx); return Response.json(result)\<close>. When
  \<^verbatim>\<open>route.handler\<close> is \<^verbatim>\<open>undefined\<close> the call throws a \<^verbatim>\<open>TypeError\<close>. The result is
  \<open>Inr\<close> of the response returned, or \<open>Inl\<close> of what was thrown.
\<close>

definition call_handler :: "handler option \<Rightarrow> json \<Rightarrow> Context \<Rightarrow> event list \<times> (exn + response)" where
  "call_handler h v c =
     (case h of
        None \<Rightarrow> ([], Inl (OtherError ''TypeError: route.handler is not a function''))
      | Some f \<Rightarrow>
          (case f v c of
             HReturns result \<Rightarrow>
               ([HandlerCall v c, HandlerSettled (HReturns result)], Inr (Response_json result 200))
           | HThrows e \<Rightarrow> ([HandlerCall v c, HandlerSettled (HThrows e)], Inl e)))"

text \<open>
  The body of the \<^verbatim>\<open>try\<close> block. \<^verbatim>\<open>if (route.middleware?.length)\<close> skips the loop for a
  missing or empty list, which for the empty list is what the loop does anyway.
\<close>

definition handle_try :: "FastRPC \<Rightarrow> request \<Rightarrow> event list \<times> (exn + response)" where
  "handle_try this req =
     (let name = procedure_name (pathname req);
          rt = routes_get this name
      in if \<not> truthy rt then ([], Inr notFoundResponse)
         else
           (case read_input req of
              Respond r \<Rightarrow> ([], Inr r)
            | Raise e \<Rightarrow> ([], Inl e)
            | Continue raw \<Rightarrow>
                (case validate (route_input rt) raw of
                   Respond r \<Rightarrow> ([], Inr r)
                 | Raise e \<Rightarrow> ([], Inl e)
                 | Continue v \<Rightarrow>
                     (case run_middleware (case route_middleware rt of None \<Rightarrow> [] | Some ms \<Rightarrow> ms)
                             0 (ctx this) of
                        (evs, Respond r) \<Rightarrow> (evs, Inr r)
                      | (evs, Raise e) \<Rightarrow> (evs, Inl e)
                      | (evs, Continue c) \<Rightarrow>
                          (let (evs', res) = call_handler (route_handler rt) v c
                           in (evs @ evs', res))))))"

text \<open>
  \<open>handle\<close>: the \<^verbatim>\<open>try\<close> block and the \<^verbatim>\<open>catch\<close> clause,
  \<^verbatim>\<open>if (error instanceof z.ZodError) return Response.json({error: error.errors}, {status: 400});
  console.error(error); return errorResponse\<close>. The result holds the response, the
  router object after the call and the trace.
\<close>

record handled =
  resp :: response
  this_after :: FastRPC
  trace :: "event list"

definition catch_clause :: "FastRPC \<Rightarrow> event list \<Rightarrow> exn \<Rightarrow> handled" where
  "catch_clause this evs error =
     (case error of
        ZodError errors \<Rightarrow>
          \<lparr>resp = Response_json (JObj [(''error'', JArr errors)]) 400, this_after = this,
           trace = evs\<rparr>
      | _ \<Rightarrow> \<lparr>resp = errorResponse, this_after = this, trace = evs @ [ConsoleError error]\<rparr>)"

definition handle :: "FastRPC \<Rightarrow> request \<Rightarrow> handled" where
  "handle this req =
     (case handle_try this req of
        (evs, Inr r) \<Rightarrow> \<lparr>resp = r, this_after = this, trace = evs\<rparr>
      | (evs, Inl error) \<Rightarrow> catch_clause this evs error)"

section \<open>The client\<close>

text \<open>
  \<^verbatim>\<open>fetch(url, init)\<close> is the network: a function from the request issued to what comes
  back, a rejected promise or a response with its \<^verbatim>\<open>ok\<close> flag, its status and the outcome
  of \<^verbatim>\<open>response.json()\<close>. The body of a request is the value that was given to
  \<^verbatim>\<open>JSON.stringify\<close>.
\<close>

record fetch_request =
  f_url :: string
  f_method :: string
  f_headers :: "(string \<times> string) list"
  f_body :: "json option"

record fetch_response =
  ok :: bool
  f_status :: nat
  f_json :: "exn + json"

datatype fetch_result = Rejects exn | Resolves fetch_response

type_synonym fetch = "fetch_request \<Rightarrow> fetch_result"

text \<open>
  The two functions of the object that \<^verbatim>\<open>createClient(baseUrl)\<close> yields for the property
  \<open>name\<close>. Each returns the requests it issued and its result, \<open>Inl\<close> for a rejected
  promise. The argument \<open>inp\<close> is \<open>None\<close> when the caller passes nothing.
\<close>

definition client_query :: "fetch \<Rightarrow> string \<Rightarrow> string \<Rightarrow> json option \<Rightarrow> fetch_request list \<times> (exn + json)" where
  "client_query fetch baseUrl name inp =
     (let rq = \<lparr>f_url = baseUrl @ ''/'' @ name, f_method = ''GET'', f_headers = [], f_body = None\<rparr>
      in case fetch rq of
           Rejects e \<Rightarrow> ([rq], Inl e)
         | Resolves response \<Rightarrow>
             if \<not> ok response then ([rq], Inl (HttpError (f_status response)))
             else ([rq], f_json response))"

definition client_mutation :: "fetch \<Rightarrow> string \<Rightarrow> string \<Rightarrow> json option \<Rightarrow> fetch_request list \<times> (exn + json)" where
  "client_mutation fetch baseUrl name inp =
     (let rq = \<lparr>f_url = baseUrl @ ''/'' @ name, f_method = ''POST'',
                f_headers = [(''Content-Type'', ''application/json'')],
                f_body = Some (case inp of None \<Rightarrow> JObj [] | Some v \<Rightarrow> v)\<rparr>
      in case fetch rq of
           Rejects e \<Rightarrow> ([rq], Inl e)
         | Resolves response \<Rightarrow>
             if \<not> ok response then ([rq], Inl (HttpError (f_status response)))
             else ([rq], f_json response))"

section \<open>Reading a trace\<close>

text \<open>
  The events that belong to the middleware loop, and the events of one awaited call of the
  middleware at position \<open>n\<close> of the list \<open>ms\<close> on the context \<open>c\<close>: its call, the calls of
  \<^verbatim>\<open>next\<close> it makes, and its settling.
\<close>

fun is_mw_event :: "event \<Rightarrow> bool" where
  "is_mw_event (MwCall _ _) = True"
| "is_mw_event (NextCall _) = True"
| "is_mw_event (MwSettled _ _) = True"
| "is_mw_event _ = False"


text \<open>
  The specification's wording of the name resolution, to compare with \<open>procedure_name\<close>:
  the last non-empty segment of the path (the empty name when there is none).
\<close>

definition last_nonempty_segment :: "string \<Rightarrow> string" where
  "last_nonempty_segment path =
     (case filter (\<lambda>s. s \<noteq> []) (split_slash path) of
        [] \<Rightarrow> []
      | s # ss \<Rightarrow> last (s # ss))"

section \<open>An example router\<close>

text \<open>
  Callbacks in the style of the repository's tests: a handler that answers
  \<^verbatim>\<open>{status: "ok"}\<close>, one that echoes its two arguments, one that throws; the schema
  \<^verbatim>\<open>z.object({name: z.string()})\<close>, which keeps the \<open>name\<close> field only, and a schema whose
  parse throws; a middleware that extends the context, one that lets administrators
  through and answers 401 otherwise, one that calls \<^verbatim>\<open>next\<close> and returns a response all
  the same, one that does neither, and one that throws a \<^verbatim>\<open>ZodError\<close>.
\<close>

definition status_handler :: handler where
  "status_handler v c = HReturns (JObj [(''status'', JStr ''ok'')])"

definition echo_handler :: handler where
  "echo_handler v c = HReturns (JObj [(''input'', v), (''ctx'', JObj c)])"

definition failing_handler :: handler where
  "failing_handler v c = HThrows (OtherError ''User not found'')"

definition name_issue :: json where
  "name_issue =
     JObj [(''code'', JStr ''invalid_type''), (''expected'', JStr ''string''),
           (''received'', JStr ''undefined''), (''path'', JArr [JStr ''name'']),
           (''message'', JStr ''Required'')]"

definition name_schema :: schema where
  "name_schema v =
     (case v of
        JObj kvs \<Rightarrow>
          (case map_of kvs ''name'' of
             Some (JStr s) \<Rightarrow> ParseSuccess (JObj [(''name'', JStr s)])
           | _ \<Rightarrow> ParseFailure [name_issue])
      | _ \<Rightarrow> ParseFailure [name_issue])"

definition throwing_schema :: schema where
  "throwing_schema v = ParseThrows (OtherError ''refinement failed'')"

definition addTimestamp :: middleware where
  "addTimestamp c = \<lparr>next_calls = [c @ [(''timestamp'', JNum 0)]], settled = ReturnsOther\<rparr>"

definition isAdmin :: middleware where
  "isAdmin c =
     (if map_of c ''isAdmin'' = Some (JBool True) then \<lparr>next_calls = [c], settled = ReturnsOther\<rparr>
      else \<lparr>next_calls = [],
            settled = ReturnsResponse (Response_json (JObj [(''error'', JStr ''Unauthorized'')]) 401)\<rparr>)"

definition deny_after_next :: middleware where
  "deny_after_next c =
     \<lparr>next_calls = [c @ [(''late'', JBool True)]],
      settled = ReturnsResponse \<lparr>status = 403, body = TextBody ''Forbidden''\<rparr>\<rparr>"

definition silent :: middleware where
  "silent c = \<lparr>next_calls = [], settled = ReturnsOther\<rparr>"

definition zod_throwing :: middleware where
  "zod_throwing c = \<lparr>next_calls = [c], settled = Throws (ZodError [name_issue])\<rparr>"

definition appRouter :: FastRPC where
  "appRouter =
     router [(''isAdmin'', JBool False)]
       [(''status'', query (new_ProcedureBuilder Query) status_handler),
        (''createUser'',
           mutation (builder_input (new_ProcedureBuilder Query) name_schema) echo_handler),
        (''adminOnly'',
           query (use (use (new_ProcedureBuilder Query) addTimestamp) isAdmin) echo_handler),
        (''guarded'',
           query (use (use (use (new_ProcedureBuilder Query) addTimestamp) deny_after_next) silent)
             echo_handler),
        (''quiet'',
           query (use (use (use (new_ProcedureBuilder Query) addTimestamp) silent) addTimestamp)
             echo_handler),
        (''stamped'',
           query (use (use (new_ProcedureBuilder Query) addTimestamp) addTimestamp) echo_handler),
        (''getUser'', query (new_ProcedureBuilder Query) failing_handler),
        (''checked'', query (use (new_ProcedureBuilder Query) zod_throwing) echo_handler),
        (''refined'',
           query (builder_input (new_ProcedureBuilder Query) throwing_schema) echo_handler)]"

definition get :: "string \<Rightarrow> request" where
  "get path = \<lparr>pathname = path, req_method = ''GET'', req_json = None\<rparr>"

definition post :: "string \<Rightarrow> json option \<Rightarrow> request" where
  "post path parsed = \<lparr>pathname = path, req_method = ''POST'', req_json = parsed\<rparr>"

section \<open>The middleware loop\<close>

lemma foldl_next_closure:
  "foldl next_closure (c, b) ncs = (last (c # ncs), b \<or> ncs \<noteq> [])"
  by (induction ncs arbitrary: c b) (auto simp: next_closure_def)

lemma run_middleware_Cons:
  "run_middleware (m # ms) i c =
     (let evs = MwCall i c # map NextCall (next_calls (m c)) @ [MwSettled i (settled (m c))]
      in case settled (m c) of
           Throws e \<Rightarrow> (evs, Raise e)
         | ReturnsResponse r \<Rightarrow> (evs, Respond r)
         | ReturnsOther \<Rightarrow>
             if next_calls (m c) = [] then (evs, Continue c)
             else (evs @ fst (run_middleware ms (Suc i) (last (next_calls (m c)))),
                   snd (run_middleware ms (Suc i) (last (next_calls (m c))))))"
  by (simp add: foldl_next_closure Let_def split: mw_return.splits prod.splits)

lemma run_middleware_events:
  "e \<in> set (fst (run_middleware ms i c)) \<Longrightarrow> is_mw_event e"
  by (induction ms arbitrary: i c)
     (auto simp: run_middleware_Cons Let_def simp del: run_middleware.simps(2) split: mw_return.splits if_splits)

lemma run_middleware_index:
  "MwCall k d \<in> set (fst (run_middleware ms i c)) \<Longrightarrow> i \<le> k \<and> k < i + length ms"
  by (induction ms arbitrary: i c)
     (fastforce simp: run_middleware_Cons Let_def simp del: run_middleware.simps(2) split: mw_return.splits if_splits)+

lemma run_middleware_reaches:
  "MwCall k d \<in> set (fst (run_middleware ms i c)) \<Longrightarrow>
   \<exists>pre. fst (run_middleware ms i c) = pre @ fst (run_middleware (drop (k - i) ms) k d) \<and>
         snd (run_middleware ms i c) = snd (run_middleware (drop (k - i) ms) k d) \<and>
         (\<forall>j d'. MwCall j d' \<in> set pre \<longrightarrow> j < k)"
proof (induction ms arbitrary: i c)
  case Nil
  then show ?case by simp
next
  case (Cons m ms)
  show ?case
  proof (cases "k = i")
    case True
    with Cons.prems have "d = c"
      using run_middleware_index[of k d ms "Suc i"]
      by (auto simp: run_middleware_Cons Let_def simp del: run_middleware.simps(2) split: mw_return.splits if_splits)
    with True show ?thesis by (intro exI[of _ "[]"]) simp
  next
    case False
    let ?evs = "MwCall i c # map NextCall (next_calls (m c)) @ [MwSettled i (settled (m c))]"
    let ?c' = "last (next_calls (m c))"
    from False Cons.prems have adv: "settled (m c) = ReturnsOther" "next_calls (m c) \<noteq> []"
      and mem: "MwCall k d \<in> set (fst (run_middleware ms (Suc i) ?c'))"
      by (auto simp: run_middleware_Cons Let_def simp del: run_middleware.simps(2) split: mw_return.splits if_splits)
    from run_middleware_index[OF mem] have ki: "Suc i \<le> k" by simp
    from Cons.IH[OF mem] obtain pre where
      pre: "fst (run_middleware ms (Suc i) ?c') = pre @ fst (run_middleware (drop (k - Suc i) ms) k d)"
           "snd (run_middleware ms (Suc i) ?c') = snd (run_middleware (drop (k - Suc i) ms) k d)"
           "\<forall>j d'. MwCall j d' \<in> set pre \<longrightarrow> j < k"
      by blast
    from ki have dr: "drop (k - i) (m # ms) = drop (k - Suc i) ms"
      by (simp add: drop_Cons' Suc_diff_le)
    have "fst (run_middleware (m # ms) i c) = (?evs @ pre) @ fst (run_middleware (drop (k - i) (m # ms)) k d)"
      using adv pre(1) dr by (simp add: run_middleware_Cons Let_def del: run_middleware.simps(2))
    moreover have "snd (run_middleware (m # ms) i c) = snd (run_middleware (drop (k - i) (m # ms)) k d)"
      using adv pre(2) dr by (simp add: run_middleware_Cons Let_def del: run_middleware.simps(2))
    moreover have "\<forall>j d'. MwCall j d' \<in> set (?evs @ pre) \<longrightarrow> j < k"
      using pre(3) ki by auto
    ultimately show ?thesis by blast
  qed
qed


section \<open>Requests to a registered procedure\<close>

lemma handle_Entry:
  assumes "routes_get this (procedure_name (pathname req)) = Entry rt"
  shows "handle this req =
     (case read_input req of
        Respond r \<Rightarrow> \<lparr>resp = r, this_after = this, trace = []\<rparr>
      | Raise e \<Rightarrow> catch_clause this [] e
      | Continue raw \<Rightarrow>
          (case validate (input rt) raw of
             Respond r \<Rightarrow> \<lparr>resp = r, this_after = this, trace = []\<rparr>
           | Raise e \<Rightarrow> catch_clause this [] e
           | Continue v \<Rightarrow>
               (case snd (run_middleware (middleware rt) 0 (ctx this)) of
                  Respond r \<Rightarrow>
                    \<lparr>resp = r, this_after = this,
                     trace = fst (run_middleware (middleware rt) 0 (ctx this))\<rparr>
                | Raise e \<Rightarrow> catch_clause this (fst (run_middleware (middleware rt) 0 (ctx this))) e
                | Continue c \<Rightarrow>
                    (case handler rt v c of
                       HReturns result \<Rightarrow>
                         \<lparr>resp = Response_json result 200, this_after = this,
                          trace = fst (run_middleware (middleware rt) 0 (ctx this)) @
                                  [HandlerCall v c, HandlerSettled (HReturns result)]\<rparr>
                     | HThrows e \<Rightarrow>
                         catch_clause this
                           (fst (run_middleware (middleware rt) 0 (ctx this)) @
                            [HandlerCall v c, HandlerSettled (HThrows e)]) e))))"
  using assms
  by (simp add: handle_def handle_try_def call_handler_def Let_def
           split: step.splits prod.splits handler_run.splits)

lemma mw_event_catch_clause:
  "e \<in> set (trace (catch_clause this evs x)) \<Longrightarrow> is_mw_event e \<Longrightarrow> e \<in> set evs"
  by (auto simp: catch_clause_def split: exn.splits)

lemma handle_trace_mw:
  assumes "routes_get this (procedure_name (pathname req)) = Entry rt"
      and "e \<in> set (trace (handle this req))" and "is_mw_event e"
  shows "\<exists>raw v. read_input req = Continue raw \<and> validate (input rt) raw = Continue v \<and>
           e \<in> set (fst (run_middleware (middleware rt) 0 (ctx this)))"
  using assms(2,3)
  by (auto simp: handle_Entry[OF assms(1)] split: step.splits handler_run.splits
           dest!: mw_event_catch_clause)

lemma handle_reaches:
  assumes "routes_get this (procedure_name (pathname req)) = Entry rt"
      and "MwCall k c \<in> set (trace (handle this req))"
  shows "\<exists>raw v pre. read_input req = Continue raw \<and> validate (input rt) raw = Continue v \<and>
           k < length (middleware rt) \<and>
           fst (run_middleware (middleware rt) 0 (ctx this)) =
             pre @ fst (run_middleware (drop k (middleware rt)) k c) \<and>
           snd (run_middleware (middleware rt) 0 (ctx this)) =
             snd (run_middleware (drop k (middleware rt)) k c) \<and>
           (\<forall>j d. MwCall j d \<in> set pre \<longrightarrow> j < k) \<and> (\<forall>e \<in> set pre. is_mw_event e)"
proof -
  let ?run = "run_middleware (middleware rt) 0 (ctx this)"
  from handle_trace_mw[OF assms] obtain raw v where
    rv: "read_input req = Continue raw" "validate (input rt) raw = Continue v"
    and mem: "MwCall k c \<in> set (fst ?run)"
    by auto
  from run_middleware_index[OF mem] have k: "k < length (middleware rt)" by simp
  from run_middleware_reaches[OF mem] obtain pre where
    pre: "fst ?run = pre @ fst (run_middleware (drop k (middleware rt)) k c)"
         "snd ?run = snd (run_middleware (drop k (middleware rt)) k c)"
         "\<forall>j d. MwCall j d \<in> set pre \<longrightarrow> j < k"
    by auto
  have "\<forall>e \<in> set pre. is_mw_event e"
    using run_middleware_events[of _ "middleware rt" 0 "ctx this"] pre(1) by auto
  with rv k pre show ?thesis by blast
qed

lemma run_middleware_at:
  assumes "k < length ms"
  shows "run_middleware (drop k ms) k c =
     (let evs = MwCall k c # map NextCall (next_calls ((ms ! k) c)) @ [MwSettled k (settled ((ms ! k) c))]
      in case settled ((ms ! k) c) of
           Throws e \<Rightarrow> (evs, Raise e)
         | ReturnsResponse r \<Rightarrow> (evs, Respond r)
         | ReturnsOther \<Rightarrow>
             if next_calls ((ms ! k) c) = [] then (evs, Continue c)
             else (evs @ fst (run_middleware (drop (Suc k) ms) (Suc k) (last (next_calls ((ms ! k) c)))),
                   snd (run_middleware (drop (Suc k) ms) (Suc k) (last (next_calls ((ms ! k) c))))))"
  using assms by (simp add: Cons_nth_drop_Suc[symmetric] run_middleware_Cons del: run_middleware.simps(2))



lemma catch_clause_simps:
  "trace (catch_clause this evs e) = evs @ (case e of ZodError _ \<Rightarrow> [] | _ \<Rightarrow> [ConsoleError e])"
  "resp (catch_clause this evs e) =
     (case e of ZodError errors \<Rightarrow> Response_json (JObj [(''error'', JArr errors)]) 400
              | _ \<Rightarrow> errorResponse)"
  "this_after (catch_clause this evs e) = this"
  by (simp_all add: catch_clause_def split: exn.splits)




lemma handle_trace_handler:
  assumes "routes_get this (procedure_name (pathname req)) = Entry rt"
      and "HandlerCall v' c \<in> set (trace (handle this req))"
  shows "\<exists>raw. read_input req = Continue raw \<and> validate (input rt) raw = Continue v' \<and>
           snd (run_middleware (middleware rt) 0 (ctx this)) = Continue c"
  using assms(2) run_middleware_events[of "HandlerCall v' c" "middleware rt" 0 "ctx this"]
  by (auto simp: handle_Entry[OF assms(1)] catch_clause_simps
           split: step.splits handler_run.splits exn.splits)

lemma handle_Continue:
  assumes "routes_get this (procedure_name (pathname req)) = Entry rt"
      and "read_input req = Continue raw" and "validate (input rt) raw = Continue v"
      and "run_middleware (middleware rt) 0 (ctx this) = (evs, Continue c)"
  shows "trace (handle this req) =
           evs @ [HandlerCall v c, HandlerSettled (handler rt v c)] @
           (case handler rt v c of
              HReturns _ \<Rightarrow> []
            | HThrows e \<Rightarrow> (case e of ZodError _ \<Rightarrow> [] | _ \<Rightarrow> [ConsoleError e]))"
    and "resp (handle this req) =
           (case handler rt v c of
              HReturns result \<Rightarrow> Response_json result 200
            | HThrows e \<Rightarrow>
                (case e of ZodError errors \<Rightarrow> Response_json (JObj [(''error'', JArr errors)]) 400
                         | _ \<Rightarrow> errorResponse))"
  using assms(2-4)
  by (simp_all add: handle_Entry[OF assms(1)] catch_clause_simps split: handler_run.splits)

lemma handle_Foreign:
  assumes "routes_get this (procedure_name (pathname req)) = Foreign"
  shows "handle this req =
     (case read_input req of
        Respond r \<Rightarrow> \<lparr>resp = r, this_after = this, trace = []\<rparr>
      | Raise e \<Rightarrow> catch_clause this [] e
      | Continue raw \<Rightarrow>
          catch_clause this [] (OtherError ''TypeError: route.handler is not a function''))"
  using assms
  by (simp add: handle_def handle_try_def call_handler_def validate_def Let_def split: step.splits)

lemma handle_same_input:
  assumes "procedure_name (pathname req) = procedure_name (pathname req')"
      and "read_input req = read_input req'"
  shows "handle this req = handle this req'"
  using assms by (simp add: handle_def handle_try_def Let_def cong: if_cong)

lemma handle_Undefined:
  assumes "routes_get this (procedure_name (pathname req)) = Undefined"
  shows "resp (handle this req) = notFoundResponse \<and> trace (handle this req) = []"
  using assms by (simp add: handle_def handle_try_def)

section \<open>Splitting a path, and the builder\<close>

lemma split_slash_not_Nil: "split_slash s \<noteq> []"
  by (induction s) (auto split: list.splits)

lemma split_slash_append:
  "split_slash (pre @ CHR ''/'' # s) = split_slash pre @ split_slash s"
proof (induction pre)
  case Nil
  show ?case by simp
next
  case (Cons c pre)
  then show ?case
    using split_slash_not_Nil[of pre] by (cases "split_slash pre") auto
qed

lemma split_slash_no_slash: "CHR ''/'' \<notin> set s \<Longrightarrow> split_slash s = [s]"
  by (induction s) auto

lemma procedure_name_last: "procedure_name path = last (split_slash path)"
  by (simp add: procedure_name_def pop_def split_slash_not_Nil)

lemma last_nonempty_segment_append:
  assumes "CHR ''/'' \<notin> set s" and "s \<noteq> []"
  shows "last_nonempty_segment (pre @ ''/'' @ s) = s"
proof -
  have "filter (\<lambda>x. x \<noteq> []) (split_slash (pre @ ''/'' @ s)) =
          filter (\<lambda>x. x \<noteq> []) (split_slash pre) @ [s]"
    using assms by (simp add: split_slash_append split_slash_no_slash)
  then show ?thesis
    by (cases "filter (\<lambda>x. x \<noteq> []) (split_slash pre)") (simp_all add: last_nonempty_segment_def)
qed


section \<open>The example router, evaluated\<close>

lemmas example_defs =
  appRouter_def router_def procedure_def new_FastRPC_def query_def mutation_def use_def
  builder_input_def new_ProcedureBuilder_def

lemmas callback_defs =
  status_handler_def echo_handler_def failing_handler_def name_schema_def throwing_schema_def
  addTimestamp_def isAdmin_def deny_after_next_def silent_def zod_throwing_def name_issue_def

lemma get_simps:
  "pathname (get p) = p" "req_method (get p) = ''GET''" "req_json (get p) = None"
  by (simp_all add: get_def)

lemma post_simps:
  "pathname (post p b) = p" "req_method (post p b) = ''POST''" "req_json (post p b) = b"
  by (simp_all add: post_def)

lemma appRouter_guarded:
  "routes_get appRouter ''guarded'' =
     Entry \<lparr>handler = echo_handler, middleware = [addTimestamp, deny_after_next, silent], input = None\<rparr>"
  by (simp add: example_defs routes_get_def)

lemma guarded_name: "procedure_name (pathname (get ''/guarded'')) = ''guarded''"
  by (simp add: get_def procedure_name_def pop_def)

lemma appRouter_ctx: "ctx appRouter = [(''isAdmin'', JBool False)]"
  by (simp add: example_defs)

lemma handle_guarded:
  "resp (handle appRouter (get ''/guarded'')) = \<lparr>status = 403, body = TextBody ''Forbidden''\<rparr> \<and>
   trace (handle appRouter (get ''/guarded'')) =
     [MwCall 0 [(''isAdmin'', JBool False)],
      NextCall [(''isAdmin'', JBool False), (''timestamp'', JNum 0)],
      MwSettled 0 ReturnsOther,
      MwCall 1 [(''isAdmin'', JBool False), (''timestamp'', JNum 0)],
      NextCall [(''isAdmin'', JBool False), (''timestamp'', JNum 0), (''late'', JBool True)],
      MwSettled 1 (ReturnsResponse \<lparr>status = 403, body = TextBody ''Forbidden''\<rparr>)]"
  by (simp add: handle_Entry[of appRouter "get ''/guarded''", unfolded guarded_name, OF appRouter_guarded]
        appRouter_ctx read_input_def validate_def get_simps next_closure_def callback_defs)

lemma appRouter_status:
  "routes_get appRouter ''status'' = Entry \<lparr>handler = status_handler, middleware = [], input = None\<rparr>"
  by (simp add: example_defs routes_get_def)

lemma appRouter_empty_name: "routes_get appRouter '''' = Undefined"
  by (simp add: example_defs routes_get_def object_prototype_keys_def)

lemma appRouter_createUser:
  "routes_get appRouter ''createUser'' =
     Entry \<lparr>handler = echo_handler, middleware = [], input = Some name_schema\<rparr>"
  by (simp add: example_defs routes_get_def)

lemma appRouter_quiet:
  "routes_get appRouter ''quiet'' =
     Entry \<lparr>handler = echo_handler, middleware = [addTimestamp, silent, addTimestamp], input = None\<rparr>"
  by (simp add: example_defs routes_get_def)





lemma toString_name: "procedure_name (pathname (get ''/toString'')) = ''toString''"
  by (simp add: get_def procedure_name_def pop_def)

lemma quiet_name: "procedure_name (pathname (get ''/quiet'')) = ''quiet''"
  by (simp add: get_def procedure_name_def pop_def)


lemma createUser_name: "procedure_name (pathname (post ''/createUser'' b)) = ''createUser''"
  by (simp add: post_def procedure_name_def pop_def)

lemma status_name: "procedure_name (pathname (get ''/status'')) = ''status''"
  by (simp add: get_def procedure_name_def pop_def)

lemma status_post_name: "procedure_name (pathname (post ''/status'' b)) = ''status''"
  by (simp add: post_def procedure_name_def pop_def)


lemma handle_quiet:
  "resp (handle appRouter (get ''/quiet'')) =
     Response_json (JObj [(''input'', JObj []),
                          (''ctx'', JObj [(''isAdmin'', JBool False), (''timestamp'', JNum 0)])]) 200 \<and>
   trace (handle appRouter (get ''/quiet'')) =
     [MwCall 0 [(''isAdmin'', JBool False)],
      NextCall [(''isAdmin'', JBool False), (''timestamp'', JNum 0)],
      MwSettled 0 ReturnsOther,
      MwCall 1 [(''isAdmin'', JBool False), (''timestamp'', JNum 0)],
      MwSettled 1 ReturnsOther,
      HandlerCall (JObj []) [(''isAdmin'', JBool False), (''timestamp'', JNum 0)],
      HandlerSettled (HReturns (JObj [(''input'', JObj []),
                          (''ctx'', JObj [(''isAdmin'', JBool False), (''timestamp'', JNum 0)])]))]"
  by (simp add: handle_Entry[of appRouter "get ''/quiet''", unfolded quiet_name, OF appRouter_quiet]
        appRouter_ctx read_input_def validate_def get_simps next_closure_def callback_defs emptyObject_def)




section \<open>The claims\<close>

subsection \<open>C1: unknown names\<close>

text \<open>
  C1 says that every request whose name is not a registered name is answered with 404 and
  the body \<^verbatim>\<open>{"error": "Not found"}\<close>. The router looks the name up with
  \<^verbatim>\<open>this.routes[name]\<close> on a plain object, so a name that \<^verbatim>\<open>Object.prototype\<close> defines,
  such as \<^verbatim>\<open>toString\<close>, finds a truthy value although no procedure of that name was
  registered: the test \<^verbatim>\<open>if (!route)\<close> passes, \<^verbatim>\<open>route.handler\<close> is \<^verbatim>\<open>undefined\<close>,
  the call throws, and the catch clause answers 500 after \<^verbatim>\<open>console.error\<close>. The theorem
  evaluates \<open>handle\<close> on \<^verbatim>\<open>GET /toString\<close> for the example router, where \<open>toString\<close> is
  not registered.
\<close>

theorem inherited_name_is_not_404:
  "routes appRouter ''toString'' = None \<and>
   resp (handle appRouter (get ''/toString'')) = errorResponse \<and>
   trace (handle appRouter (get ''/toString'')) =
     [ConsoleError (OtherError ''TypeError: route.handler is not a function'')]"
proof -
  have r: "routes appRouter ''toString'' = None"
    by (simp add: example_defs)
  have p: "routes_proto appRouter = None"
    by (simp add: example_defs)
  have s: "routes_get appRouter ''toString'' = Foreign"
    by (simp add: routes_get_def r p object_prototype_keys_def)
  have i: "read_input (get ''/toString'') = Continue emptyObject"
    by (simp add: read_input_def get_simps)
  show ?thesis
    by (simp add: r handle_Foreign[of appRouter "get ''/toString''", unfolded toString_name, OF s] i
          catch_clause_simps)
qed

subsection \<open>C2: a middleware that returns a response\<close>

text \<open>
  C2. When a middleware of a registered procedure is called during a request and returns a
  \<^verbatim>\<open>Response\<close>, that response is the response of \<open>handle\<close>, and the trace ends with the
  events of that call: no middleware at a later position and no handler is called. Nothing
  is assumed about \<open>next_calls\<close>, so this holds as well when the middleware called
  \<^verbatim>\<open>next\<close>.
\<close>

theorem middleware_response_short_circuits:
  assumes "routes_get this (procedure_name (pathname req)) = Entry rt"
      and "MwCall k c \<in> set (trace (handle this req))"
      and "settled ((middleware rt ! k) c) = ReturnsResponse r"
  shows "resp (handle this req) = r \<and>
         (\<exists>pre. trace (handle this req) =
                  pre @ MwCall k c # map NextCall (next_calls ((middleware rt ! k) c)) @
                  [MwSettled k (ReturnsResponse r)]) \<and>
         (\<forall>j d. MwCall j d \<in> set (trace (handle this req)) \<longrightarrow> j \<le> k) \<and>
         (\<forall>v d. HandlerCall v d \<notin> set (trace (handle this req)))"
proof -
  let ?ms = "middleware rt"
  let ?evs = "MwCall k c # map NextCall (next_calls ((?ms ! k) c)) @ [MwSettled k (ReturnsResponse r)]"
  from handle_reaches[OF assms(1,2)] obtain raw v pre where
    rv: "read_input req = Continue raw" "validate (input rt) raw = Continue v"
    and k: "k < length ?ms"
    and f: "fst (run_middleware ?ms 0 (ctx this)) = pre @ fst (run_middleware (drop k ?ms) k c)"
    and s: "snd (run_middleware ?ms 0 (ctx this)) = snd (run_middleware (drop k ?ms) k c)"
    and pre: "\<forall>j d. MwCall j d \<in> set pre \<longrightarrow> j < k" "\<forall>e \<in> set pre. is_mw_event e"
    by blast
  have at: "run_middleware (drop k ?ms) k c = (?evs, Respond r)"
    using assms(3) by (simp add: run_middleware_at[OF k])
  have h: "handle this req = \<lparr>resp = r, this_after = this, trace = pre @ ?evs\<rparr>"
    using rv f s at by (simp add: handle_Entry[OF assms(1)])
  have "\<forall>j d. MwCall j d \<in> set (pre @ ?evs) \<longrightarrow> j \<le> k"
    using pre(1) by (auto dest: less_imp_le)
  moreover have "\<forall>v d. HandlerCall v d \<notin> set (pre @ ?evs)"
    using pre(2) by auto
  ultimately show ?thesis unfolding h by simp
qed

text \<open>
  On \<^verbatim>\<open>GET /guarded\<close> the second middleware calls \<^verbatim>\<open>next\<close> and returns a 403 response.
\<close>

theorem middleware_response_short_circuits_witness:
  "MwCall 1 [(''isAdmin'', JBool False), (''timestamp'', JNum 0)]
     \<in> set (trace (handle appRouter (get ''/guarded''))) \<and>
   next_calls (deny_after_next [(''isAdmin'', JBool False), (''timestamp'', JNum 0)]) \<noteq> [] \<and>
   settled (deny_after_next [(''isAdmin'', JBool False), (''timestamp'', JNum 0)]) =
     ReturnsResponse \<lparr>status = 403, body = TextBody ''Forbidden''\<rparr> \<and>
   resp (handle appRouter (get ''/guarded'')) = \<lparr>status = 403, body = TextBody ''Forbidden''\<rparr> \<and>
   (\<forall>v d. HandlerCall v d \<notin> set (trace (handle appRouter (get ''/guarded''))))"
proof -
  let ?c = "[(''isAdmin'', JBool False), (''timestamp'', JNum 0)]"
  let ?rt = "\<lparr>handler = echo_handler, middleware = [addTimestamp, deny_after_next, silent], input = None\<rparr>"
  have E: "routes_get appRouter (procedure_name (pathname (get ''/guarded''))) = Entry ?rt"
    by (simp only: guarded_name appRouter_guarded)
  have M: "MwCall 1 ?c \<in> set (trace (handle appRouter (get ''/guarded'')))"
    by (simp add: handle_guarded)
  have S: "settled ((middleware ?rt ! 1) ?c) = ReturnsResponse \<lparr>status = 403, body = TextBody ''Forbidden''\<rparr>"
    by (simp add: deny_after_next_def)
  from middleware_response_short_circuits[OF E M S] M S show ?thesis
    by (simp add: deny_after_next_def)
qed

subsection \<open>C3: schema validation\<close>

text \<open>
  C3. For a request to a registered procedure with an input schema whose input was read
  (\<open>raw\<close>): when the schema rejects \<open>raw\<close> with a list of issues, the response is 400 with
  the body \<^verbatim>\<open>{error: issues}\<close> and no callback at all runs; when the schema accepts
  \<open>raw\<close> with the value \<open>data\<close>, every call of the handler has \<open>data\<close> as its input, and
  the handler is called with it whenever the middleware loop ends without a response or an
  exception.
\<close>

theorem schema_validation_guards_handler:
  assumes "routes_get this (procedure_name (pathname req)) = Entry rt"
      and "input rt = Some sch"
      and "read_input req = Continue raw"
  shows "(\<forall>errors. sch raw = ParseFailure errors \<longrightarrow>
            resp (handle this req) = Response_json (JObj [(''error'', JArr errors)]) 400 \<and>
            trace (handle this req) = []) \<and>
         (\<forall>data. sch raw = ParseSuccess data \<longrightarrow>
            (\<forall>v c. HandlerCall v c \<in> set (trace (handle this req)) \<longrightarrow> v = data) \<and>
            (\<forall>c. snd (run_middleware (middleware rt) 0 (ctx this)) = Continue c \<longrightarrow>
                 HandlerCall data c \<in> set (trace (handle this req))))"
proof (intro conjI allI impI)
  fix errors assume "sch raw = ParseFailure errors"
  then have v: "validate (input rt) raw = Respond (Response_json (JObj [(''error'', JArr errors)]) 400)"
    using assms(2) by (simp add: validate_def)
  show "resp (handle this req) = Response_json (JObj [(''error'', JArr errors)]) 400"
    using assms(3) v by (simp add: handle_Entry[OF assms(1)])
  show "trace (handle this req) = []"
    using assms(3) v by (simp add: handle_Entry[OF assms(1)])
next
  fix data v c assume d: "sch raw = ParseSuccess data"
    and h: "HandlerCall v c \<in> set (trace (handle this req))"
  from d have "validate (input rt) raw = Continue data"
    using assms(2) by (simp add: validate_def)
  with handle_trace_handler[OF assms(1) h] assms(3) show "v = data" by auto
next
  fix data c assume d: "sch raw = ParseSuccess data"
    and r: "snd (run_middleware (middleware rt) 0 (ctx this)) = Continue c"
  from d have v: "validate (input rt) raw = Continue data"
    using assms(2) by (simp add: validate_def)
  have "run_middleware (middleware rt) 0 (ctx this) =
          (fst (run_middleware (middleware rt) 0 (ctx this)), Continue c)"
    using r by (simp add: prod_eq_iff)
  from handle_Continue(1)[OF assms(1,3) v this]
  show "HandlerCall data c \<in> set (trace (handle this req))" by simp
qed

text \<open>
  \<^verbatim>\<open>POST /createUser\<close> with \<^verbatim>\<open>{"bogus": 1}\<close> is rejected; with
  \<^verbatim>\<open>{"name": "Ann", "extra": 1}\<close> the handler receives \<^verbatim>\<open>{"name": "Ann"}\<close>, the schema's
  output, not the parsed body.
\<close>

theorem schema_validation_guards_handler_witness:
  "name_schema (JObj [(''bogus'', JNum 1)]) = ParseFailure [name_issue] \<and>
   resp (handle appRouter (post ''/createUser'' (Some (JObj [(''bogus'', JNum 1)])))) =
     Response_json (JObj [(''error'', JArr [name_issue])]) 400 \<and>
   trace (handle appRouter (post ''/createUser'' (Some (JObj [(''bogus'', JNum 1)])))) = [] \<and>
   name_schema (JObj [(''name'', JStr ''Ann''), (''extra'', JNum 1)]) =
     ParseSuccess (JObj [(''name'', JStr ''Ann'')]) \<and>
   HandlerCall (JObj [(''name'', JStr ''Ann'')]) [(''isAdmin'', JBool False)]
     \<in> set (trace (handle appRouter
                (post ''/createUser'' (Some (JObj [(''name'', JStr ''Ann''), (''extra'', JNum 1)])))))"
proof -
  let ?bad = "JObj [(''bogus'', JNum 1)]"
  let ?good = "JObj [(''name'', JStr ''Ann''), (''extra'', JNum 1)]"
  let ?rt = "\<lparr>handler = echo_handler, middleware = [], input = Some name_schema\<rparr>"
  have E: "routes_get appRouter (procedure_name (pathname (post ''/createUser'' b))) = Entry ?rt" for b
    by (simp only: createUser_name appRouter_createUser)
  have I: "input ?rt = Some name_schema" by simp
  have R: "read_input (post ''/createUser'' (Some v)) = Continue v" for v
    by (simp add: read_input_def post_simps)
  have F: "name_schema ?bad = ParseFailure [name_issue]"
    and S: "name_schema ?good = ParseSuccess (JObj [(''name'', JStr ''Ann'')])"
    by (simp_all add: name_schema_def)
  have C: "snd (run_middleware (middleware ?rt) 0 (ctx appRouter)) = Continue [(''isAdmin'', JBool False)]"
    by (simp add: appRouter_ctx)
  from schema_validation_guards_handler[OF E I R, of ?bad] F schema_validation_guards_handler[OF E I R, of ?good] S C show ?thesis
    by simp
qed

subsection \<open>C4: the input of a request\<close>

text \<open>
  C4. For a request to a registered procedure: when the method is not \<^verbatim>\<open>POST\<close> the input
  is \<open>emptyObject\<close>, so that the request is handled exactly as a \<^verbatim>\<open>POST\<close> whose body parses
  to \<^verbatim>\<open>{}\<close>, and a handler of a procedure without schema is called with \<open>emptyObject\<close>;
  when the method is \<^verbatim>\<open>POST\<close> and \<^verbatim>\<open>req.json()\<close> rejects, the response is 400 with the
  body \<^verbatim>\<open>{"error": "Invalid JSON"}\<close> and no callback runs.
\<close>

theorem input_of_request:
  assumes "routes_get this (procedure_name (pathname req)) = Entry rt"
  shows "(req_method req \<noteq> ''POST'' \<longrightarrow>
            read_input req = Continue emptyObject \<and>
            handle this req = handle this (req\<lparr>req_method := ''POST'', req_json := Some emptyObject\<rparr>) \<and>
            (input rt = None \<longrightarrow>
               (\<forall>v c. HandlerCall v c \<in> set (trace (handle this req)) \<longrightarrow> v = emptyObject))) \<and>
         (req_method req = ''POST'' \<and> req_json req = None \<longrightarrow>
            resp (handle this req) = Response_json (JObj [(''error'', JStr ''Invalid JSON'')]) 400 \<and>
            trace (handle this req) = [])"
proof (intro conjI allI impI)
  assume m: "req_method req \<noteq> ''POST''"
  then show r: "read_input req = Continue emptyObject" by (simp add: read_input_def)
  have "read_input (req\<lparr>req_method := ''POST'', req_json := Some emptyObject\<rparr>) = Continue emptyObject"
    by (simp add: read_input_def)
  with r show "handle this req = handle this (req\<lparr>req_method := ''POST'', req_json := Some emptyObject\<rparr>)"
    by (intro handle_same_input) simp_all
  fix v c assume "input rt = None" and h: "HandlerCall v c \<in> set (trace (handle this req))"
  with handle_trace_handler[OF assms h] r show "v = emptyObject"
    by (auto simp: validate_def)
next
  assume "req_method req = ''POST'' \<and> req_json req = None"
  then have r: "read_input req = Respond (Response_json (JObj [(''error'', JStr ''Invalid JSON'')]) 400)"
    by (simp add: read_input_def)
  show "resp (handle this req) = Response_json (JObj [(''error'', JStr ''Invalid JSON'')]) 400"
    using r by (simp add: handle_Entry[OF assms])
  show "trace (handle this req) = []"
    using r by (simp add: handle_Entry[OF assms])
qed

text \<open>\<^verbatim>\<open>GET /status\<close>, and \<^verbatim>\<open>POST /status\<close> with a body that is not JSON.\<close>

theorem input_of_request_witness:
  "req_method (get ''/status'') \<noteq> ''POST'' \<and>
   read_input (get ''/status'') = Continue emptyObject \<and>
   handle appRouter (get ''/status'') = handle appRouter (post ''/status'' (Some emptyObject)) \<and>
   req_method (post ''/status'' None) = ''POST'' \<and> req_json (post ''/status'' None) = None \<and>
   resp (handle appRouter (post ''/status'' None)) =
     Response_json (JObj [(''error'', JStr ''Invalid JSON'')]) 400 \<and>
   trace (handle appRouter (post ''/status'' None)) = []"
proof -
  let ?rt = "\<lparr>handler = status_handler, middleware = [], input = None\<rparr>"
  have E1: "routes_get appRouter (procedure_name (pathname (get ''/status''))) = Entry ?rt"
    by (simp only: status_name appRouter_status)
  have E2: "routes_get appRouter (procedure_name (pathname (post ''/status'' None))) = Entry ?rt"
    by (simp only: status_post_name appRouter_status)
  have u: "(get ''/status'')\<lparr>req_method := ''POST'', req_json := Some emptyObject\<rparr> =
           post ''/status'' (Some emptyObject)"
    by (simp add: get_def post_def)
  have g: "req_method (get ''/status'') \<noteq> ''POST''"
    by (simp add: get_simps)
  have p: "req_method (post ''/status'' None) = ''POST'' \<and> req_json (post ''/status'' None) = None"
    by (simp add: post_simps)
  from input_of_request[OF E1] g
  have 1: "read_input (get ''/status'') = Continue emptyObject"
    and 2: "handle appRouter (get ''/status'') =
            handle appRouter ((get ''/status'')\<lparr>req_method := ''POST'', req_json := Some emptyObject\<rparr>)"
    by blast+
  from input_of_request[OF E2] p
  have 3: "resp (handle appRouter (post ''/status'' None)) =
             Response_json (JObj [(''error'', JStr ''Invalid JSON'')]) 400"
    and 4: "trace (handle appRouter (post ''/status'' None)) = []"
    by blast+
  from g p 1 2[unfolded u] 3 4 show ?thesis by blast
qed

subsection \<open>C5: the procedure name\<close>

text \<open>
  C5, as amended. The name that \<open>handle\<close> looks up is the last segment of the path, the
  text after its last slash, whether or not that text is empty: for a path
  \<open>pre @ ''/'' @ s\<close> where \<open>s\<close> has no slash the name is \<open>s\<close>, and the request is handled
  as the request for the path \<open>''/'' @ s\<close>. When \<open>s\<close> is not empty this is the last
  non-empty segment, of which the claim as written speaks; the two differ on a path that
  ends with a slash.
\<close>

theorem name_is_last_segment:
  assumes "CHR ''/'' \<notin> set s"
  shows "procedure_name (pre @ ''/'' @ s) = s \<and>
         handle this (req\<lparr>pathname := pre @ ''/'' @ s\<rparr>) = handle this (req\<lparr>pathname := ''/'' @ s\<rparr>) \<and>
         (s \<noteq> '''' \<longrightarrow> procedure_name (pre @ ''/'' @ s) = last_nonempty_segment (pre @ ''/'' @ s))"
proof -
  have n: "procedure_name (p @ ''/'' @ s) = s" for p
    using assms split_slash_not_Nil[of s]
    by (simp add: procedure_name_last split_slash_append split_slash_no_slash)
  have "procedure_name (''/'' @ s) = s"
    using n[of "[]"] by simp
  with n[of pre] have
    "handle this (req\<lparr>pathname := pre @ ''/'' @ s\<rparr>) = handle this (req\<lparr>pathname := ''/'' @ s\<rparr>)"
    by (intro handle_same_input) (simp_all add: read_input_def)
  with n[of pre] last_nonempty_segment_append[OF assms, of pre] show ?thesis by simp
qed

text \<open>
  The counterexample to C5 as written: for the path \<^verbatim>\<open>/status/\<close> the name looked up is
  empty, not \<open>status\<close>, and the request is answered with 404 although \<^verbatim>\<open>/status\<close> is
  served.
\<close>

theorem last_nonempty_segment_counterexample:
  "procedure_name ''/status/'' = '''' \<and> last_nonempty_segment ''/status/'' = ''status'' \<and>
   resp (handle appRouter (get ''/status/'')) = notFoundResponse \<and>
   resp (handle appRouter (get ''/status'')) = Response_json (JObj [(''status'', JStr ''ok'')]) 200"
proof -
  have 1: "procedure_name ''/status/'' = ''''"
    by (simp add: procedure_name_def pop_def)
  have 2: "last_nonempty_segment ''/status/'' = ''status''"
    by (simp add: last_nonempty_segment_def)
  have 3: "resp (handle appRouter (get ''/status/'')) = notFoundResponse"
    using handle_Undefined[of appRouter "get ''/status/''"] 1 appRouter_empty_name
    by (simp add: get_simps)
  have n: "procedure_name (pathname (get ''/status'')) = ''status''"
    by (simp add: get_simps procedure_name_def pop_def)
  have 4: "resp (handle appRouter (get ''/status'')) = Response_json (JObj [(''status'', JStr ''ok'')]) 200"
    by (simp add: handle_Entry[of appRouter "get ''/status''", unfolded n, OF appRouter_status]
          appRouter_ctx read_input_def validate_def get_simps status_handler_def)
  from 1 2 3 4 show ?thesis by blast
qed

text \<open>The paths \<^verbatim>\<open>/api/v1/status\<close> and \<^verbatim>\<open>/status\<close> are handled alike.\<close>

theorem name_is_last_segment_witness:
  "CHR ''/'' \<notin> set ''status'' \<and> procedure_name (''/api/v1'' @ ''/'' @ ''status'') = ''status'' \<and>
   handle appRouter (get ''/api/v1/status'') = handle appRouter (get ''/status'') \<and>
   last_nonempty_segment ''/api/v1/status'' = ''status''"
proof -
  have h: "CHR ''/'' \<notin> set ''status''" by simp
  from name_is_last_segment[OF h, of "''/api/v1''" appRouter "get ''/x''"] h show ?thesis
    by (auto simp: get_def)
qed

subsection \<open>C6: the order of the middleware\<close>



subsection \<open>C7: a middleware that neither continues nor responds\<close>

text \<open>
  C7. When a middleware of a registered procedure is called with the context \<open>c\<close>, does
  not call \<^verbatim>\<open>next\<close> and returns something that is not a \<^verbatim>\<open>Response\<close>, the next event
  after its settling is the call of the handler with the same context \<open>c\<close>: no middleware
  at a later position runs, nothing is thrown by the loop, and when the handler returns a
  value the response is 200 with that value.
\<close>

theorem silent_middleware_falls_through:
  assumes "routes_get this (procedure_name (pathname req)) = Entry rt"
      and "MwCall k c \<in> set (trace (handle this req))"
      and "next_calls ((middleware rt ! k) c) = []"
      and "settled ((middleware rt ! k) c) = ReturnsOther"
  shows "\<exists>pre v post.
           trace (handle this req) =
             pre @ [MwCall k c, MwSettled k ReturnsOther,
                    HandlerCall v c, HandlerSettled (handler rt v c)] @ post \<and>
           (\<forall>j d. MwCall j d \<in> set pre \<longrightarrow> j < k) \<and>
           (\<forall>e \<in> set post. \<not> is_mw_event e) \<and>
           (\<forall>result. handler rt v c = HReturns result \<longrightarrow>
                      resp (handle this req) = Response_json result 200)"
proof -
  let ?ms = "middleware rt"
  let ?evs = "[MwCall k c, MwSettled k ReturnsOther]"
  from handle_reaches[OF assms(1,2)] obtain raw v pre where
    rv: "read_input req = Continue raw" "validate (input rt) raw = Continue v"
    and k: "k < length ?ms"
    and f: "fst (run_middleware ?ms 0 (ctx this)) = pre @ fst (run_middleware (drop k ?ms) k c)"
    and s: "snd (run_middleware ?ms 0 (ctx this)) = snd (run_middleware (drop k ?ms) k c)"
    and pre: "\<forall>j d. MwCall j d \<in> set pre \<longrightarrow> j < k"
    by blast
  have at: "run_middleware (drop k ?ms) k c = (?evs, Continue c)"
    using assms(3,4) by (simp add: run_middleware_at[OF k])
  have run: "run_middleware ?ms 0 (ctx this) = (pre @ ?evs, Continue c)"
    using f s at by (simp add: prod_eq_iff)
  let ?post = "case handler rt v c of
              HReturns _ \<Rightarrow> []
            | HThrows e \<Rightarrow> (case e of ZodError _ \<Rightarrow> [] | _ \<Rightarrow> [ConsoleError e])"
  have "trace (handle this req) =
          pre @ [MwCall k c, MwSettled k ReturnsOther, HandlerCall v c, HandlerSettled (handler rt v c)] @ ?post"
    using handle_Continue(1)[OF assms(1) rv run] by simp
  moreover have "\<forall>e \<in> set ?post. \<not> is_mw_event e"
  proof (cases "handler rt v c")
    case (HReturns result)
    then show ?thesis by simp
  next
    case (HThrows e)
    then show ?thesis by (cases e) simp_all
  qed
  moreover have "\<forall>result. handler rt v c = HReturns result \<longrightarrow>
                      resp (handle this req) = Response_json result 200"
    using handle_Continue(2)[OF assms(1) rv run] by simp
  ultimately show ?thesis using pre by blast
qed

text \<open>On \<^verbatim>\<open>GET /quiet\<close> the second of three middleware is silent.\<close>

theorem silent_middleware_falls_through_witness:
  "MwCall 1 [(''isAdmin'', JBool False), (''timestamp'', JNum 0)]
     \<in> set (trace (handle appRouter (get ''/quiet''))) \<and>
   next_calls (silent [(''isAdmin'', JBool False), (''timestamp'', JNum 0)]) = [] \<and>
   settled (silent [(''isAdmin'', JBool False), (''timestamp'', JNum 0)]) = ReturnsOther \<and>
   (\<exists>pre v post.
      trace (handle appRouter (get ''/quiet'')) =
        pre @ [MwCall 1 [(''isAdmin'', JBool False), (''timestamp'', JNum 0)],
               MwSettled 1 ReturnsOther,
               HandlerCall v [(''isAdmin'', JBool False), (''timestamp'', JNum 0)],
               HandlerSettled (echo_handler v [(''isAdmin'', JBool False), (''timestamp'', JNum 0)])] @ post)"
proof -
  let ?c = "[(''isAdmin'', JBool False), (''timestamp'', JNum 0)]"
  let ?rt = "\<lparr>handler = echo_handler, middleware = [addTimestamp, silent, addTimestamp], input = None\<rparr>"
  have E: "routes_get appRouter (procedure_name (pathname (get ''/quiet''))) = Entry ?rt"
    by (simp only: quiet_name appRouter_quiet)
  have M: "MwCall 1 ?c \<in> set (trace (handle appRouter (get ''/quiet'')))"
    by (simp add: handle_quiet)
  have N: "next_calls ((middleware ?rt ! 1) ?c) = []"
    by (simp add: silent_def)
  have S: "settled ((middleware ?rt ! 1) ?c) = ReturnsOther"
    by (simp add: silent_def)
  from silent_middleware_falls_through[OF E M N S] obtain pre v post where
    "trace (handle appRouter (get ''/quiet'')) =
        pre @ [MwCall 1 ?c, MwSettled 1 ReturnsOther, HandlerCall v ?c, HandlerSettled (handler ?rt v ?c)] @ post"
    by blast
  then have "\<exists>pre v post. trace (handle appRouter (get ''/quiet'')) =
        pre @ [MwCall 1 ?c, MwSettled 1 ReturnsOther, HandlerCall v ?c, HandlerSettled (echo_handler v ?c)] @ post"
    by auto
  with M show ?thesis by (simp add: silent_def)
qed

subsection \<open>C8: exceptions\<close>



subsection \<open>C9: the context\<close>



subsection \<open>C10: the client's query\<close>

text \<open>
  C10. \<^verbatim>\<open>query\<close> of the client does not use its argument: for any two inputs, none
  included, it issues the same single request, a \<^verbatim>\<open>GET\<close> of \<^verbatim>\<open>baseUrl/name\<close> with no
  headers and no body, and over the same network it has the same result.
\<close>

theorem client_query_ignores_input:
  "client_query fetch baseUrl name inp = client_query fetch baseUrl name inp' \<and>
   fst (client_query fetch baseUrl name inp) =
     [\<lparr>f_url = baseUrl @ ''/'' @ name, f_method = ''GET'', f_headers = [], f_body = None\<rparr>]"
  by (simp add: client_query_def Let_def split: fetch_result.splits)

section \<open>Further properties\<close>

text \<open>
  A name that the lookup does not find, neither among the registered names nor along the
  prototype chain, is answered with 404 and the body \<^verbatim>\<open>{"error": "Not found"}\<close>, and no
  callback runs.
\<close>

theorem unfound_name_is_404:
  assumes "routes this (procedure_name (pathname req)) = None"
      and "routes_proto this = None"
      and "procedure_name (pathname req) \<notin> set object_prototype_keys"
  shows "resp (handle this req) = \<lparr>status = 404, body = JsonBody (JObj [(''error'', JStr ''Not found'')])\<rparr> \<and>
         trace (handle this req) = []"
proof -
  have "routes_get this (procedure_name (pathname req)) = Undefined"
    using assms by (simp add: routes_get_def)
  then show ?thesis
    by (simp add: handle_def handle_try_def notFoundResponse_def Response_json_def)
qed

theorem unfound_name_is_404_witness:
  "routes appRouter ''unknown'' = None \<and> routes_proto appRouter = None \<and>
   ''unknown'' \<notin> set object_prototype_keys \<and>
   resp (handle appRouter (get ''/unknown'')) =
     \<lparr>status = 404, body = JsonBody (JObj [(''error'', JStr ''Not found'')])\<rparr> \<and>
   trace (handle appRouter (get ''/unknown'')) = []"
proof -
  have n: "procedure_name (pathname (get ''/unknown'')) = ''unknown''"
    by (simp add: get_def procedure_name_def pop_def)
  have r: "routes appRouter ''unknown'' = None" and p: "routes_proto appRouter = None"
    by (simp_all add: example_defs)
  have k: "''unknown'' \<notin> set object_prototype_keys"
    by (simp add: object_prototype_keys_def)
  from unfound_name_is_404[of appRouter "get ''/unknown''", unfolded n, OF r p k] r p k
  show ?thesis by blast
qed

text \<open>
  A request to a registered procedure whose input is read and validated, whose middleware
  loop ends without a response or an exception, and whose handler returns a value, is
  answered with 200 and that value.
\<close>

theorem valid_request_returns_handler_value:
  assumes "routes_get this (procedure_name (pathname req)) = Entry rt"
      and "read_input req = Continue raw"
      and "validate (input rt) raw = Continue v"
      and "snd (run_middleware (middleware rt) 0 (ctx this)) = Continue c"
      and "handler rt v c = HReturns result"
  shows "resp (handle this req) = \<lparr>status = 200, body = JsonBody result\<rparr> \<and>
         HandlerCall v c \<in> set (trace (handle this req))"
  using assms(2-5) by (simp add: handle_Entry[OF assms(1)] Response_json_def)

theorem valid_request_returns_handler_value_witness:
  "resp (handle appRouter (get ''/status'')) =
     \<lparr>status = 200, body = JsonBody (JObj [(''status'', JStr ''ok'')])\<rparr> \<and>
   HandlerCall emptyObject [(''isAdmin'', JBool False)] \<in> set (trace (handle appRouter (get ''/status'')))"
proof -
  let ?rt = "\<lparr>handler = status_handler, middleware = [], input = None\<rparr>"
  have E: "routes_get appRouter (procedure_name (pathname (get ''/status''))) = Entry ?rt"
    by (simp only: status_name appRouter_status)
  have R: "read_input (get ''/status'') = Continue emptyObject"
    by (simp add: read_input_def get_simps)
  have V: "validate (input ?rt) emptyObject = Continue emptyObject"
    by (simp add: validate_def)
  have C: "snd (run_middleware (middleware ?rt) 0 (ctx appRouter)) = Continue [(''isAdmin'', JBool False)]"
    by (simp add: appRouter_ctx)
  have H: "handler ?rt emptyObject [(''isAdmin'', JBool False)] = HReturns (JObj [(''status'', JStr ''ok'')])"
    by (simp add: status_handler_def)
  from valid_request_returns_handler_value[OF E R V C H] show ?thesis .
qed

text \<open>
  \<^verbatim>\<open>mutation\<close> of the client issues one \<^verbatim>\<open>POST\<close> of \<^verbatim>\<open>baseUrl/name\<close> whose body is its
  input, or \<^verbatim>\<open>{}\<close> when there is none.
\<close>

theorem client_mutation_sends_input:
  "fst (client_mutation fetch baseUrl name inp) =
     [\<lparr>f_url = baseUrl @ ''/'' @ name, f_method = ''POST'',
       f_headers = [(''Content-Type'', ''application/json'')],
       f_body = Some (case inp of None \<Rightarrow> JObj [] | Some v \<Rightarrow> v)\<rparr>]"
  by (simp add: client_mutation_def Let_def split: fetch_result.splits)

end
